theory Spec2Isabelle
  imports Complex_Main "HOL-Library.Word" "HOL-Library.Sublist"
begin

unbundle bit_operations_syntax

section \<open>Data model\<close>

text \<open>
  The development follows \<^verbatim>\<open>scripts/term-multi-smoke.py\<close>. A Python \<^verbatim>\<open>bytes\<close> object is a
  list of 8-bit words. A Python \<^verbatim>\<open>str\<close> that holds terminal output is a list of Unicode code
  points (\<open>pystr\<close>), because decoding with \<^verbatim>\<open>errors="replace"\<close> produces U+FFFD, which is
  not a byte. Identifiers, message kinds and base64 payloads are ASCII and are kept as
  \<open>string\<close>.
\<close>

type_synonym byte = "8 word"
type_synonym pystr = "nat list"

text \<open>The exceptions that the modelled code paths can raise.\<close>

datatype error =
    KeyError
  | IndexError
  | ValueError
  | BinasciiError
  | UnicodeEncodeError

text \<open>
  A parsed JSON message (\<^verbatim>\<open>json.loads(msg)\<close>): a dictionary with a string \<^verbatim>\<open>"type"\<close> and the
  optional keys the client reads or writes, each a string. A key that is absent is \<open>None\<close>.
  Frames that are not JSON objects of this shape are outside the model.
\<close>

record message =
  mtype :: string
  term_id :: "string option"
  session_id :: "string option"
  data_b64 :: "string option"
  project :: "string option"
  workspace :: "string option"

text \<open>The fields of \<^verbatim>\<open>TerminalTester\<close> other than the socket.\<close>

record tester =
  term_ids :: "string list"
  outputs :: "string \<rightharpoonup> pystr"
  tproject :: "string option"
  tworkspace :: "string option"

text \<open>
  The socket and the event-loop clock. \<open>inbox\<close> holds the frames the peer will deliver, each
  with the time at which it becomes readable; \<open>sent\<close> collects what the client wrote.
  Time is in seconds, as in the source, and exact: a rational, where the source has a
  float. The model agrees with the source where the float sums and differences of the
  source are exact (see \<open>exact_time\<close> below). The clock advances only while the task is
  suspended in a read.
\<close>

record world =
  now :: rat
  inbox :: "(rat \<times> message) list"
  sent :: "message list"

section \<open>The payload codec of the Python standard library\<close>

subsection \<open>base64\<close>

text \<open>The table \<^verbatim>\<open>table_b2a_base64\<close>: A-Z, a-z, 0-9, +, /.\<close>

definition b64_char :: "nat \<Rightarrow> char" where
  "b64_char i =
     (if i < 26 then char_of (65 + i)
      else if i < 52 then char_of (71 + i)
      else if i < 62 then char_of (i - 4)
      else if i = 62 then CHR ''+'' else CHR ''/'')"

text \<open>The inverse table \<^verbatim>\<open>table_a2b_base64\<close>; \<open>None\<close> for a character outside the alphabet.\<close>

definition b64_val :: "char \<Rightarrow> nat option" where
  "b64_val c =
     (let n = (of_char c :: nat) in
      if 65 \<le> n \<and> n \<le> 90 then Some (n - 65)
      else if 97 \<le> n \<and> n \<le> 122 then Some (n - 71)
      else if 48 \<le> n \<and> n \<le> 57 then Some (n + 4)
      else if n = 43 then Some 62
      else if n = 47 then Some 63
      else None)"

text \<open>
  \<^verbatim>\<open>base64.b64encode\<close>, that is \<^verbatim>\<open>binascii.b2a_base64(s, newline=False)\<close>: three bytes become
  four characters, and a final group of one or two bytes is padded with \<^verbatim>\<open>=\<close>.
\<close>

fun b64encode :: "byte list \<Rightarrow> string" where
  "b64encode [] = []"
| "b64encode [a] =
     [b64_char (unat (drop_bit 2 a)), b64_char (unat (push_bit 4 (a AND 3))),
      CHR ''='', CHR ''='']"
| "b64encode [a, b] =
     [b64_char (unat (drop_bit 2 a)),
      b64_char (unat (push_bit 4 (a AND 3) OR drop_bit 4 b)),
      b64_char (unat (push_bit 2 (b AND 15))), CHR ''='']"
| "b64encode (a # b # c # rest) =
     [b64_char (unat (drop_bit 2 a)),
      b64_char (unat (push_bit 4 (a AND 3) OR drop_bit 4 b)),
      b64_char (unat (push_bit 2 (b AND 15) OR drop_bit 6 c)),
      b64_char (unat (c AND 63))]
     @ b64encode rest"

definition emit :: "byte \<Rightarrow> error + byte list \<Rightarrow> error + byte list" where
  "emit b r = (case r of Inl e \<Rightarrow> Inl e | Inr bs \<Rightarrow> Inr (b # bs))"

text \<open>
  \<^verbatim>\<open>binascii.a2b_base64\<close> in its default, non-strict mode, as the loop of CPython's
  \<^verbatim>\<open>binascii.c\<close> is written: \<open>quad_pos\<close> counts the characters of the current group,
  \<open>leftchar\<close> holds the bits not yet written, \<open>pads\<close> counts consecutive \<^verbatim>\<open>=\<close>. A character
  outside the alphabet is skipped; padding that completes a group ends the decoding and
  whatever follows is ignored; an incomplete group at the end of the input raises
  \<^verbatim>\<open>binascii.Error\<close>.
\<close>

fun a2b_base64 :: "nat \<Rightarrow> byte \<Rightarrow> nat \<Rightarrow> string \<Rightarrow> error + byte list" where
  "a2b_base64 quad_pos leftchar pads [] =
     (if quad_pos \<noteq> 0 then Inl BinasciiError else Inr [])"
| "a2b_base64 quad_pos leftchar pads (c # cs) =
     (if c = CHR ''='' then
        (if quad_pos \<ge> 2 \<and> quad_pos + (pads + 1) \<ge> 4 then Inr []
         else a2b_base64 quad_pos leftchar (if quad_pos \<ge> 2 then pads + 1 else pads) cs)
      else
        (case b64_val c of
           None \<Rightarrow> a2b_base64 quad_pos leftchar pads cs
         | Some v \<Rightarrow>
             (let this_ch = (word_of_nat v :: byte) in
              if quad_pos = 0 then a2b_base64 1 this_ch 0 cs
              else if quad_pos = 1 then
                emit (push_bit 2 leftchar OR drop_bit 4 this_ch)
                  (a2b_base64 2 (this_ch AND 15) 0 cs)
              else if quad_pos = 2 then
                emit (push_bit 4 leftchar OR drop_bit 2 this_ch)
                  (a2b_base64 3 (this_ch AND 3) 0 cs)
              else
                emit (push_bit 6 leftchar OR this_ch) (a2b_base64 0 0 0 cs))))"

text \<open>
  \<^verbatim>\<open>base64.b64decode(s)\<close> on a \<^verbatim>\<open>str\<close>: the string is first encoded as ASCII, which raises
  \<^verbatim>\<open>ValueError\<close> when it holds a character above 127.
\<close>

definition b64decode :: "string \<Rightarrow> error + byte list" where
  "b64decode s =
     (if list_all (\<lambda>c. (of_char c :: nat) < 128) s then a2b_base64 0 0 0 s
      else Inl ValueError)"

subsection \<open>UTF-8\<close>

text \<open>
  The bytes of one code point under \<^verbatim>\<open>str.encode()\<close> (UTF-8, strict): a surrogate cannot be
  encoded, and a number from 0x110000 on is not a code point of a Python string.
\<close>

definition utf8_enc1 :: "nat \<Rightarrow> nat list option" where
  "utf8_enc1 c =
     (if c < 0x80 then Some [c]
      else if c < 0x800 then Some [0xC0 + c div 64, 0x80 + c mod 64]
      else if c < 0x10000 then
        (if 0xD800 \<le> c \<and> c \<le> 0xDFFF then None
         else Some [0xE0 + c div 4096, 0x80 + (c div 64) mod 64, 0x80 + c mod 64])
      else if c < 0x110000 then
        Some [0xF0 + c div 262144, 0x80 + (c div 4096) mod 64,
              0x80 + (c div 64) mod 64, 0x80 + c mod 64]
      else None)"

fun utf8_encode :: "pystr \<Rightarrow> error + byte list" where
  "utf8_encode [] = Inr []"
| "utf8_encode (c # cs) =
     (case utf8_enc1 c of
        None \<Rightarrow> Inl UnicodeEncodeError
      | Some bs \<Rightarrow>
          (case utf8_encode cs of
             Inl e \<Rightarrow> Inl e
           | Inr r \<Rightarrow> Inr (map word_of_nat bs @ r)))"

definition is_cont :: "nat \<Rightarrow> bool" where
  "is_cont b = (0x80 \<le> b \<and> b < 0xC0)"

text \<open>
  \<^verbatim>\<open>bytes.decode("utf-8", errors="replace")\<close> on the values of the bytes, following CPython's
  decoder: an invalid start byte, or a start byte with the valid continuation bytes that
  follow it, is replaced by one U+FFFD and decoding resumes after them; a sequence cut off
  by the end of the input is replaced by one U+FFFD.
\<close>

fun utf8_dec :: "nat list \<Rightarrow> pystr" where
  "utf8_dec [] = []"
| "utf8_dec (ch # s) =
     (if ch < 0x80 then ch # utf8_dec s
      else if ch < 0xC2 then 0xFFFD # utf8_dec s
      else if ch < 0xE0 then
        (case s of
           [] \<Rightarrow> [0xFFFD]
         | ch2 # s2 \<Rightarrow>
             if \<not> is_cont ch2 then 0xFFFD # utf8_dec s
             else (ch * 64 + ch2 - (0xC0 * 64 + 0x80)) # utf8_dec s2)
      else if ch < 0xF0 then
        (case s of
           [] \<Rightarrow> [0xFFFD]
         | ch2 # s2 \<Rightarrow>
             if \<not> is_cont ch2 \<or> (if ch2 < 0xA0 then ch = 0xE0 else ch = 0xED)
             then 0xFFFD # utf8_dec s
             else
               (case s2 of
                  [] \<Rightarrow> [0xFFFD]
                | ch3 # s3 \<Rightarrow>
                    if \<not> is_cont ch3 then 0xFFFD # utf8_dec s2
                    else (ch * 4096 + ch2 * 64 + ch3 - (0xE0 * 4096 + 0x80 * 64 + 0x80))
                         # utf8_dec s3))
      else if ch < 0xF5 then
        (case s of
           [] \<Rightarrow> [0xFFFD]
         | ch2 # s2 \<Rightarrow>
             if \<not> is_cont ch2 \<or> (if ch2 < 0x90 then ch = 0xF0 else ch = 0xF4)
             then 0xFFFD # utf8_dec s
             else
               (case s2 of
                  [] \<Rightarrow> [0xFFFD]
                | ch3 # s3 \<Rightarrow>
                    if \<not> is_cont ch3 then 0xFFFD # utf8_dec s2
                    else
                      (case s3 of
                         [] \<Rightarrow> [0xFFFD]
                       | ch4 # s4 \<Rightarrow>
                           if \<not> is_cont ch4 then 0xFFFD # utf8_dec s3
                           else (ch * 262144 + ch2 * 4096 + ch3 * 64 + ch4
                                 - (0xF0 * 262144 + 0x80 * 4096 + 0x80 * 64 + 0x80))
                                # utf8_dec s4)))
      else 0xFFFD # utf8_dec s)"

definition utf8_decode_replace :: "byte list \<Rightarrow> pystr" where
  "utf8_decode_replace bs = utf8_dec (map unat bs)"

text \<open>A Unicode scalar value: a code point that is not a surrogate.\<close>

definition unicode_scalar :: "nat \<Rightarrow> bool" where
  "unicode_scalar c = (c < 0x110000 \<and> \<not> (0xD800 \<le> c \<and> c \<le> 0xDFFF))"

subsection \<open>The two payload conversions of the client\<close>

text \<open>\<^verbatim>\<open>send_input\<close>, line 117: \<^verbatim>\<open>base64.b64encode(text.encode()).decode()\<close>.\<close>

definition encode_payload :: "pystr \<Rightarrow> error + string" where
  "encode_payload txt =
     (case utf8_encode txt of Inl e \<Rightarrow> Inl e | Inr bs \<Rightarrow> Inr (b64encode bs))"

text \<open>
  \<^verbatim>\<open>recv_until\<close>, line 65:
  \<^verbatim>\<open>base64.b64decode(parsed["data_b64"]).decode("utf-8", errors="replace")\<close>.
\<close>

definition decode_payload :: "string \<Rightarrow> error + pystr" where
  "decode_payload p =
     (case b64decode p of Inl e \<Rightarrow> Inl e | Inr bs \<Rightarrow> Inr (utf8_decode_replace bs))"

section \<open>The client\<close>

text \<open>\<^verbatim>\<open>TIMEOUT = 10\<close>.\<close>

definition TIMEOUT :: rat where
  "TIMEOUT = 10"

text \<open>A dictionary literal with only the \<^verbatim>\<open>"type"\<close> key.\<close>

definition msg_of_type :: "string \<Rightarrow> message" where
  "msg_of_type t =
     \<lparr>mtype = t, term_id = None, session_id = None, data_b64 = None,
      project = None, workspace = None\<rparr>"

text \<open>\<^verbatim>\<open>send\<close>: the message is written to the socket.\<close>

definition send :: "message \<Rightarrow> world \<Rightarrow> world" where
  "send m w = w\<lparr>sent := sent w @ [m]\<rparr>"

text \<open>
  \<^verbatim>\<open>asyncio.wait_for(self.ws.recv(), timeout=t)\<close>. With \<open>t \<le> 0\<close> the read is cancelled before
  it starts and \<^verbatim>\<open>TimeoutError\<close> is raised at once (\<open>None\<close> here). Otherwise the next frame
  is returned if it becomes readable before \<open>t\<close> seconds have passed, and the clock moves
  to its arrival; if not, the clock moves on by \<open>t\<close> and the read times out.
\<close>

definition wait_for_recv :: "rat \<Rightarrow> world \<Rightarrow> message option \<times> world" where
  "wait_for_recv t w =
     (if t \<le> 0 then (None, w)
      else
        (case inbox w of
           [] \<Rightarrow> (None, w\<lparr>now := now w + t\<rparr>)
         | (arrival, m) # rest \<Rightarrow>
             if arrival < now w + t
             then (Some m, w\<lparr>now := max (now w) arrival, inbox := rest\<rparr>)
             else (None, w\<lparr>now := now w + t\<rparr>)))"

text \<open>
  Line 63 of \<^verbatim>\<open>recv_until\<close>: \<^verbatim>\<open>parsed.get("term_id") or self.term_ids[0]\<close>. A missing or
  empty \<^verbatim>\<open>term_id\<close> is falsy, and then the first open terminal is taken; with no open
  terminal the index raises.
\<close>

definition target_term :: "message \<Rightarrow> tester \<Rightarrow> error + string" where
  "target_term parsed st =
     (case term_id parsed of
        Some (c # cs) \<Rightarrow> Inr (c # cs)
      | _ \<Rightarrow> (case term_ids st of [] \<Rightarrow> Inl IndexError | t # ts \<Rightarrow> Inr t))"

text \<open>
  Lines 61 to 66 of \<^verbatim>\<open>recv_until\<close>, the accumulation of output: the payload is read and
  decoded only when the target terminal is a key of \<open>outputs\<close>.
\<close>

definition accumulate :: "message \<Rightarrow> tester \<Rightarrow> error + tester" where
  "accumulate parsed st =
     (if mtype parsed = ''output'' then
        (case target_term parsed st of
           Inl e \<Rightarrow> Inl e
         | Inr tid \<Rightarrow>
             (case outputs st tid of
                None \<Rightarrow> Inr st
              | Some old \<Rightarrow>
                  (case data_b64 parsed of
                     None \<Rightarrow> Inl KeyError
                   | Some p \<Rightarrow>
                       (case decode_payload p of
                          Inl e \<Rightarrow> Inl e
                        | Inr data \<Rightarrow> Inr (st\<lparr>outputs := (outputs st)(tid \<mapsto> old @ data)\<rparr>)))))
      else Inr st)"

text \<open>Lines 68 and 69 of \<^verbatim>\<open>recv_until\<close>: the test that ends the wait.\<close>

definition wanted :: "string \<Rightarrow> string option \<Rightarrow> message \<Rightarrow> bool" where
  "wanted msg_type tid parsed =
     (mtype parsed = msg_type \<and>
      (case tid of None \<Rightarrow> True | Some t \<Rightarrow> term_id parsed = Some t))"

text \<open>
  The loop of \<^verbatim>\<open>recv_until\<close> for a fixed \<open>deadline\<close>. An exception other than the timeout
  leaves the loop and the function (\<open>Inl\<close>).
\<close>

function recv_loop ::
  "string \<Rightarrow> string option \<Rightarrow> rat \<Rightarrow> tester \<Rightarrow> world
     \<Rightarrow> error + (message option \<times> tester \<times> world)" where
  "recv_loop msg_type tid deadline st w =
     (if now w < deadline then
        (case wait_for_recv (deadline - now w) w of
           (None, w') \<Rightarrow> Inr (None, st, w')
         | (Some parsed, w') \<Rightarrow>
             (case accumulate parsed st of
                Inl e \<Rightarrow> Inl e
              | Inr st' \<Rightarrow>
                  if wanted msg_type tid parsed then Inr (Some parsed, st', w')
                  else recv_loop msg_type tid deadline st' w'))
      else Inr (None, st, w))"
  by pat_completeness auto
termination
  apply (relation "measure (\<lambda>(msg_type, tid, deadline, st, w). length (inbox w))")
   apply simp
  apply (auto simp: wait_for_recv_def split: if_splits list.splits prod.splits)
  done

text \<open>
  \<^verbatim>\<open>recv_until\<close>: the deadline is computed once, from the clock at the call. The sum of
  line 52 and the difference of line 57 are float operations in the source and exact
  here; a float sum can round to the clock itself when the timeout is tiny, and then the
  source does not enter the loop.
\<close>

definition recv_until ::
  "string \<Rightarrow> string option \<Rightarrow> rat \<Rightarrow> tester \<Rightarrow> world
     \<Rightarrow> error + (message option \<times> tester \<times> world)" where
  "recv_until msg_type tid timeout st w = recv_loop msg_type tid (now w + timeout) st w"

text \<open>\<^verbatim>\<open>send_input\<close>.\<close>

definition send_input :: "string \<Rightarrow> pystr \<Rightarrow> world \<Rightarrow> error + world" where
  "send_input tid txt w =
     (case encode_payload txt of
        Inl e \<Rightarrow> Inl e
      | Inr p \<Rightarrow> Inr (send ((msg_of_type ''input'')\<lparr>term_id := Some tid, data_b64 := Some p\<rparr>) w))"

text \<open>
  The loop of \<^verbatim>\<open>wait_for_output\<close> for a fixed \<open>deadline\<close>;
  \<^verbatim>\<open>self.outputs.get(term_id, "")\<close> is the empty string for an unknown terminal, and
  \<^verbatim>\<open>expected in s\<close> is the substring test.
\<close>

function wait_loop ::
  "string \<Rightarrow> pystr \<Rightarrow> rat \<Rightarrow> tester \<Rightarrow> world \<Rightarrow> error + (bool \<times> tester \<times> world)" where
  "wait_loop tid expected deadline st w =
     (if now w < deadline then
        (if sublist expected (case outputs st tid of None \<Rightarrow> [] | Some buf \<Rightarrow> buf)
         then Inr (True, st, w)
         else
           (case recv_until ''output'' (Some tid) (1 / 2) st w of
              Inl e \<Rightarrow> Inl e
            | Inr (r, st', w') \<Rightarrow> wait_loop tid expected deadline st' w'))
      else Inr (False, st, w))"
  by pat_completeness auto

definition wait_for_output ::
  "string \<Rightarrow> pystr \<Rightarrow> rat \<Rightarrow> tester \<Rightarrow> world \<Rightarrow> error + (bool \<times> tester \<times> world)" where
  "wait_for_output tid expected timeout st w = wait_loop tid expected (now w + timeout) st w"

text \<open>
  \<^verbatim>\<open>close_terminal\<close>. \<^verbatim>\<open>list.remove\<close> deletes the first occurrence and raises
  \<^verbatim>\<open>ValueError\<close> when there is none.
\<close>

definition close_terminal ::
  "string \<Rightarrow> tester \<Rightarrow> world \<Rightarrow> error + (bool \<times> tester \<times> world)" where
  "close_terminal tid st w =
     (case recv_until ''term_closed'' None TIMEOUT st
             (send ((msg_of_type ''term_close'')\<lparr>term_id := Some tid\<rparr>) w) of
        Inl e \<Rightarrow> Inl e
      | Inr (None, st', w') \<Rightarrow> Inr (False, st', w')
      | Inr (Some m, st', w') \<Rightarrow>
          if term_id m = Some tid then
            (if tid \<in> set (term_ids st')
             then Inr (True, st'\<lparr>term_ids := remove1 tid (term_ids st')\<rparr>, w')
             else Inl ValueError)
          else Inr (False, st', w'))"

text \<open>
  Step 3 of \<^verbatim>\<open>main\<close>, lines 167 to 177: the workspace is selected, and on the
  acknowledgment both the list of terminals and the dictionary of outputs are replaced by
  fresh ones that hold the new session only.
\<close>

definition select_workspace :: "tester \<Rightarrow> world \<Rightarrow> error + (tester \<times> world)" where
  "select_workspace st w =
     (case recv_until ''selected_workspace'' None TIMEOUT st
             (send ((msg_of_type ''select_workspace'')
                      \<lparr>project := tproject st, workspace := tworkspace st\<rparr>) w) of
        Inl e \<Rightarrow> Inl e
      | Inr (None, st', w') \<Rightarrow> Inr (st', w')
      | Inr (Some m, st', w') \<Rightarrow>
          (case session_id m of
             None \<Rightarrow> Inl KeyError
           | Some sid \<Rightarrow> Inr (st'\<lparr>term_ids := [sid], outputs := [sid \<mapsto> []]\<rparr>, w')))"

text \<open>The text of an ASCII literal of the source.\<close>

definition pystr_of :: "string \<Rightarrow> pystr" where
  "pystr_of s = map of_char s"

text \<open>
  Step 9 of \<^verbatim>\<open>main\<close>, lines 212 to 222: the four containment facts
  (\<^verbatim>\<open>term1_has_A\<close>, \<^verbatim>\<open>term1_has_B\<close>, \<^verbatim>\<open>term2_has_A\<close>, \<^verbatim>\<open>term2_has_B\<close>) and the verdict, as a
  function of the two buffers.
\<close>

definition isolation_facts :: "pystr \<Rightarrow> pystr \<Rightarrow> bool \<times> bool \<times> bool \<times> bool" where
  "isolation_facts out1 out2 =
     (sublist (pystr_of ''MARKER_A'') out1, sublist (pystr_of ''MARKER_B'') out1,
      sublist (pystr_of ''MARKER_A'') out2, sublist (pystr_of ''MARKER_B'') out2)"

definition isolation_ok :: "bool \<times> bool \<times> bool \<times> bool \<Rightarrow> bool" where
  "isolation_ok f =
     (case f of (term1_has_A, term1_has_B, term2_has_A, term2_has_B) \<Rightarrow>
        term1_has_A \<and> \<not> term1_has_B \<and> term2_has_B \<and> \<not> term2_has_A)"

text \<open>
  The same step on the state of the run: \<^verbatim>\<open>tester.outputs[term1]\<close> raises \<^verbatim>\<open>KeyError\<close> for
  an unknown terminal. The state and the socket are returned as the step leaves them.
\<close>

definition verify_isolation ::
  "string \<Rightarrow> string \<Rightarrow> tester \<Rightarrow> world
     \<Rightarrow> error + (((bool \<times> bool \<times> bool \<times> bool) \<times> bool) \<times> tester \<times> world)" where
  "verify_isolation term1 term2 st w =
     (case outputs st term1 of
        None \<Rightarrow> Inl KeyError
      | Some out1 \<Rightarrow>
          (case outputs st term2 of
             None \<Rightarrow> Inl KeyError
           | Some out2 \<Rightarrow>
               Inr ((isolation_facts out1 out2, isolation_ok (isolation_facts out1 out2)),
                    st, w)))"

text \<open>
  The effect of the accumulation step on a sequence of frames, in the order in which they
  were read; used to state what a wait has done to the buffers.
\<close>

fun accumulate_all :: "message list \<Rightarrow> tester \<Rightarrow> error + tester" where
  "accumulate_all [] st = Inr st"
| "accumulate_all (m # ms) st =
     (case accumulate m st of Inl e \<Rightarrow> Inl e | Inr st' \<Rightarrow> accumulate_all ms st')"


text \<open>Frames and states for the examples: an output frame as the peer sends it.\<close>

definition output_frame :: "string option \<Rightarrow> string \<Rightarrow> message" where
  "output_frame t p = (msg_of_type ''output'')\<lparr>term_id := t, data_b64 := Some p\<rparr>"

text \<open>A tester whose terminals \<open>ts\<close> are open, each with an empty buffer.\<close>

definition tester_of :: "string list \<Rightarrow> tester" where
  "tester_of ts =
     \<lparr>term_ids = ts, outputs = map_of (map (\<lambda>t. (t, [])) ts),
      tproject = None, tworkspace = None\<rparr>"

text \<open>
  The scenario of a busy connection: the clock is at 0, output frames arrive at 0.5, 1 and
  1.9 seconds (for the terminal \<^verbatim>\<open>t2\<close>, for the default terminal and for an unknown one) and
  a \<^verbatim>\<open>pong\<close> arrives at 1.95 seconds.
\<close>

definition busy_world :: world where
  "busy_world =
     \<lparr>now = 0,
      inbox = [(1 / 2, output_frame (Some ''t2'') ''aGk=''),
               (1, output_frame None ''/w==''),
               (19 / 10, output_frame (Some ''t9'') ''aGk=''),
               (39 / 20, msg_of_type ''pong'')],
      sent = []\<rparr>"

text \<open>
  A time on which the float arithmetic of the source is exact: a multiple of
  \<^verbatim>\<open>2**-20\<close> seconds, at most \<^verbatim>\<open>2**32\<close> in magnitude. Counted in units of \<^verbatim>\<open>2**-20\<close>, the
  sum and the difference of two such times are integers of magnitude at most \<^verbatim>\<open>2**53\<close>
  (lemma \<open>exact_time_sum\<close>), so they are binary64 values, and float addition and
  subtraction return them unrounded.
\<close>

definition exact_time :: "rat \<Rightarrow> bool" where
  "exact_time x = (x * 2 ^ 20 \<in> \<int> \<and> \<bar>x\<bar> \<le> 2 ^ 32)"


declare recv_loop.simps [simp del]

section \<open>The codec reproduces what it encodes\<close>

subsection \<open>base64\<close>

lemma b64_val_char: "i < 64 \<Longrightarrow> b64_val (b64_char i) = Some i"
  by (auto simp: b64_val_def b64_char_def Let_def)

lemma b64_char_not_pad: "i < 64 \<Longrightarrow> b64_char i \<noteq> CHR ''=''"
proof
  assume "i < 64" and "b64_char i = CHR ''=''"
  then have "b64_val (CHR ''='') = Some i"
    using b64_val_char by metis
  then show False
    by (simp add: b64_val_def)
qed

lemma b64_char_ascii: "(of_char (b64_char i) :: nat) < 128"
  by (auto simp: b64_char_def)

lemma and_3_take_bit: "a AND 3 = take_bit 2 a" for a :: byte
  by (simp add: take_bit_eq_mask mask_eq_exp_minus_1)

lemma and_15_take_bit: "a AND 15 = take_bit 4 a" for a :: byte
  by (simp add: take_bit_eq_mask mask_eq_exp_minus_1)

lemma and_63_take_bit: "a AND 63 = take_bit 6 a" for a :: byte
  by (simp add: take_bit_eq_mask mask_eq_exp_minus_1)

lemma suc_suc_diff: "2 \<le> n \<Longrightarrow> Suc (Suc (n - 2)) = n"
  by simp

lemma bit_byte_less: "bit a n \<Longrightarrow> n < 8" for a :: byte
  using bit_imp_le_length [of a n] by simp

text \<open>The three bytes of a group are recovered from its four sextets.\<close>

lemma join_first:
  "push_bit 2 (drop_bit 2 a) OR drop_bit 4 (push_bit 4 (a AND 3) OR drop_bit 4 b) = a"
  for a b :: byte
  unfolding and_3_take_bit
  apply (rule bit_word_eqI)
  apply (auto simp: bit_simps suc_suc_diff)
  apply (metis suc_suc_diff not_le)
  done

lemma join_second:
  "push_bit 4 ((push_bit 4 (a AND 3) OR drop_bit 4 b) AND 15)
     OR drop_bit 2 (push_bit 2 (b AND 15) OR drop_bit 6 c) = b"
  for a b c :: byte
  unfolding and_3_take_bit and_15_take_bit
  apply (rule bit_word_eqI)
  apply (auto simp: bit_simps suc_suc_diff)
  done

lemma join_third:
  "push_bit 6 ((push_bit 2 (b AND 15) OR drop_bit 6 c) AND 3) OR (c AND 63) = c"
  for b c :: byte
  unfolding and_3_take_bit and_15_take_bit and_63_take_bit
  apply (rule bit_word_eqI)
  apply (auto simp: bit_simps suc_suc_diff)
  done

lemma join_first_padded:
  "push_bit 2 (drop_bit 2 a) OR drop_bit 4 (push_bit 4 (a AND 3)) = a" for a :: byte
  using join_first [of a 0] by simp

lemma join_second_padded:
  "push_bit 4 ((push_bit 4 (a AND 3) OR drop_bit 4 b) AND 15)
     OR drop_bit 2 (push_bit 2 (b AND 15)) = b"
  for a b :: byte
  using join_second [of a b 0] by simp

text \<open>Every sextet is below 64.\<close>

lemma sextet_bound: "take_bit 6 x = x \<Longrightarrow> unat x < 64" for x :: byte
proof -
  assume "take_bit 6 x = x"
  then have "unat x = take_bit 6 (unat x)"
    by (metis unsigned_take_bit_eq)
  also have "\<dots> < 2 ^ 6"
    by (rule take_bit_nat_less_exp)
  finally show ?thesis
    by simp
qed

lemma sextet0: "unat (drop_bit 2 a) < 64" for a :: byte
  by (rule sextet_bound, rule bit_word_eqI) (auto simp: bit_simps dest: bit_byte_less)

lemma sextet1: "unat (push_bit 4 (a AND 3) OR drop_bit 4 b) < 64" for a b :: byte
  unfolding and_3_take_bit
  by (rule sextet_bound, rule bit_word_eqI) (auto simp: bit_simps dest: bit_byte_less)

lemma sextet2: "unat (push_bit 2 (b AND 15) OR drop_bit 6 c) < 64" for b c :: byte
  unfolding and_15_take_bit
  by (rule sextet_bound, rule bit_word_eqI) (auto simp: bit_simps dest: bit_byte_less)

lemma sextet3: "unat (c AND 63) < 64" for c :: byte
  unfolding and_63_take_bit
  by (rule sextet_bound, rule bit_word_eqI) (auto simp: bit_simps)

lemma sextet1_padded: "unat (push_bit 4 (a AND 3)) < 64" for a :: byte
  using sextet1 [of a 0] by simp

lemma sextet2_padded: "unat (push_bit 2 (b AND 15)) < 64" for b :: byte
  using sextet2 [of b 0] by simp

text \<open>One step of the decoder on a character that the encoder wrote.\<close>

lemma a2b_base64_char:
  "unat x < 64 \<Longrightarrow>
   a2b_base64 q l p (b64_char (unat x) # cs) =
     (if q = 0 then a2b_base64 1 x 0 cs
      else if q = 1 then emit (push_bit 2 l OR drop_bit 4 x) (a2b_base64 2 (x AND 15) 0 cs)
      else if q = 2 then emit (push_bit 4 l OR drop_bit 2 x) (a2b_base64 3 (x AND 3) 0 cs)
      else emit (push_bit 6 l OR x) (a2b_base64 0 0 0 cs))"
  for x :: byte
  by (simp add: b64_val_char b64_char_not_pad)

lemma a2b_base64_two_pads: "a2b_base64 2 l 0 (CHR ''='' # CHR ''='' # cs) = Inr []"
  by simp

lemma a2b_base64_one_pad: "a2b_base64 3 l 0 (CHR ''='' # cs) = Inr []"
  by simp

lemma a2b_base64_b64encode: "a2b_base64 0 0 0 (b64encode bs) = Inr bs"
proof (induction bs rule: b64encode.induct)
  case 1
  then show ?case by simp
next
  case (2 a)
  define x0 where "x0 = drop_bit 2 a"
  define x1 where "x1 = push_bit 4 (a AND 3)"
  have b: "unat x0 < 64" "unat x1 < 64"
    by (simp_all only: x0_def x1_def sextet0 sextet1_padded)
  have r: "push_bit 2 x0 OR drop_bit 4 x1 = a"
    by (simp only: x0_def x1_def join_first_padded)
  have e: "b64encode [a] = [b64_char (unat x0), b64_char (unat x1), CHR ''='', CHR ''='']"
    by (simp only: b64encode.simps x0_def x1_def)
  show ?case using r unfolding e
    by (simp add: a2b_base64_char b a2b_base64_two_pads emit_def del: a2b_base64.simps)
next
  case (3 a b)
  define x0 where "x0 = drop_bit 2 a"
  define x1 where "x1 = push_bit 4 (a AND 3) OR drop_bit 4 b"
  define x2 where "x2 = push_bit 2 (b AND 15)"
  have b: "unat x0 < 64" "unat x1 < 64" "unat x2 < 64"
    by (simp_all only: x0_def x1_def x2_def sextet0 sextet1 sextet2_padded)
  have r: "push_bit 2 x0 OR drop_bit 4 x1 = a" "push_bit 4 (x1 AND 15) OR drop_bit 2 x2 = b"
    by (simp_all only: x0_def x1_def x2_def join_first join_second_padded)
  have e: "b64encode [a, b] =
      [b64_char (unat x0), b64_char (unat x1), b64_char (unat x2), CHR ''='']"
    by (simp only: b64encode.simps x0_def x1_def x2_def)
  show ?case using r unfolding e
    by (simp add: a2b_base64_char b a2b_base64_one_pad emit_def del: a2b_base64.simps)
next
  case (4 a b c rest)
  define x0 where "x0 = drop_bit 2 a"
  define x1 where "x1 = push_bit 4 (a AND 3) OR drop_bit 4 b"
  define x2 where "x2 = push_bit 2 (b AND 15) OR drop_bit 6 c"
  define x3 where "x3 = c AND 63"
  have b: "unat x0 < 64" "unat x1 < 64" "unat x2 < 64" "unat x3 < 64"
    by (simp_all only: x0_def x1_def x2_def x3_def sextet0 sextet1 sextet2 sextet3)
  have r: "push_bit 2 x0 OR drop_bit 4 x1 = a" "push_bit 4 (x1 AND 15) OR drop_bit 2 x2 = b"
    "push_bit 6 (x2 AND 3) OR x3 = c"
    by (simp_all only: x0_def x1_def x2_def x3_def join_first join_second join_third)
  have e: "b64encode (a # b # c # rest) =
      b64_char (unat x0) # b64_char (unat x1) # b64_char (unat x2) # b64_char (unat x3)
        # b64encode rest"
    by (simp only: b64encode.simps x0_def x1_def x2_def x3_def append.simps)
  show ?case using r 4 unfolding e
    by (simp add: a2b_base64_char b emit_def del: a2b_base64.simps)
qed

lemma b64encode_ascii: "list_all (\<lambda>c. (of_char c :: nat) < 128) (b64encode bs)"
  by (induction bs rule: b64encode.induct) (simp_all add: b64_char_ascii)

lemma b64decode_b64encode: "b64decode (b64encode bs) = Inr bs"
  by (simp add: b64decode_def b64encode_ascii a2b_base64_b64encode)

subsection \<open>UTF-8\<close>

lemma div_4096: "(c::nat) div 4096 = c div 64 div 64"
  by (simp add: div_mult2_eq [symmetric])

lemma div_262144: "(c::nat) div 262144 = c div 64 div 64 div 64"
  by (simp add: div_mult2_eq [symmetric])

lemma two_byte_parts:
  assumes "128 \<le> (c::nat)" "c < 2048"
  shows "2 \<le> c div 64 \<and> c div 64 < 32 \<and> c mod 64 < 64 \<and> c = (c div 64) * 64 + c mod 64"
proof -
  define q where "q = c div 64"
  define l where "l = c mod 64"
  have c: "c = q * 64 + l" "l < 64"
    by (simp_all add: q_def l_def)
  have "2 \<le> q \<and> q < 32"
    using c assms by linarith
  then show ?thesis
    using c unfolding q_def l_def by blast
qed

lemma three_byte_parts:
  assumes "2048 \<le> (c::nat)" "c < 65536" "\<not> (55296 \<le> c \<and> c \<le> 57343)"
  shows "c div 4096 < 16 \<and> (c div 64) mod 64 < 64 \<and> c mod 64 < 64 \<and>
      (c div 4096 = 0 \<longrightarrow> 32 \<le> (c div 64) mod 64) \<and>
      (c div 4096 = 13 \<longrightarrow> (c div 64) mod 64 < 32) \<and>
      c = (c div 4096) * 4096 + ((c div 64) mod 64) * 64 + c mod 64"
proof -
  define q where "q = c div 64"
  define l where "l = c mod 64"
  define h where "h = q div 64"
  define m where "m = q mod 64"
  have c: "c = q * 64 + l" "l < 64"
    by (simp_all add: q_def l_def)
  have q: "q = h * 64 + m" "m < 64"
    by (simp_all add: h_def m_def)
  have e: "c div 4096 = h"
    by (simp add: div_4096 h_def q_def)
  have s: "c = h * 4096 + m * 64 + l"
    using c(1) q(1) by simp
  have 1: "h < 16"
    using s assms(2) by linarith
  have 2: "h = 0 \<longrightarrow> 32 \<le> m"
    using s assms(1) c(2) by linarith
  have 3: "h = 13 \<longrightarrow> m < 32"
    using s assms(3) c(2) q(2) by linarith
  show ?thesis
    unfolding e using 1 2 3 s c(2) q(2) unfolding l_def m_def q_def by blast
qed

lemma four_byte_parts:
  assumes "65536 \<le> (c::nat)" "c < 1114112"
  shows "c div 262144 < 5 \<and> (c div 4096) mod 64 < 64 \<and> (c div 64) mod 64 < 64 \<and>
      c mod 64 < 64 \<and>
      (c div 262144 = 0 \<longrightarrow> 16 \<le> (c div 4096) mod 64) \<and>
      (c div 262144 = 4 \<longrightarrow> (c div 4096) mod 64 < 16) \<and>
      c = (c div 262144) * 262144 + ((c div 4096) mod 64) * 4096
            + ((c div 64) mod 64) * 64 + c mod 64"
proof -
  define q where "q = c div 64"
  define l where "l = c mod 64"
  define p where "p = q div 64"
  define m where "m = q mod 64"
  define h where "h = p div 64"
  define k where "k = p mod 64"
  have c: "c = q * 64 + l" "l < 64"
    by (simp_all add: q_def l_def)
  have q: "q = p * 64 + m" "m < 64"
    by (simp_all add: p_def m_def)
  have p: "p = h * 64 + k" "k < 64"
    by (simp_all add: h_def k_def)
  have e: "c div 262144 = h" "c div 4096 = p"
    by (simp_all add: div_4096 div_262144 h_def p_def q_def)
  have s: "c = h * 262144 + k * 4096 + m * 64 + l"
    using c(1) q(1) p(1) by simp
  have 1: "h < 5"
    using s assms(2) by linarith
  have 2: "h = 0 \<longrightarrow> 16 \<le> k"
    using s assms(1) c(2) q(2) by linarith
  have 3: "h = 4 \<longrightarrow> k < 16"
    using s assms(2) by linarith
  show ?thesis
    unfolding e using 1 2 3 s c(2) q(2) p(2) unfolding l_def m_def k_def q_def p_def
    by blast
qed

lemma utf8_dec_two:
  assumes "2 \<le> h" "h < 32" "l < 64"
  shows "utf8_dec ((0xC0 + h) # (0x80 + l) # rest) = (h * 64 + l) # utf8_dec rest"
  using assms by (simp add: is_cont_def)

lemma utf8_dec_three:
  assumes "h < 16" "m < 64" "l < 64" "h = 0 \<longrightarrow> 32 \<le> m" "h = 13 \<longrightarrow> m < 32"
  shows "utf8_dec ((0xE0 + h) # (0x80 + m) # (0x80 + l) # rest)
         = (h * 4096 + m * 64 + l) # utf8_dec rest"
  using assms by (auto simp: is_cont_def)

lemma utf8_dec_four:
  assumes "h < 5" "k < 64" "m < 64" "l < 64" "h = 0 \<longrightarrow> 16 \<le> k" "h = 4 \<longrightarrow> k < 16"
  shows "utf8_dec ((0xF0 + h) # (0x80 + k) # (0x80 + m) # (0x80 + l) # rest)
         = (h * 262144 + k * 4096 + m * 64 + l) # utf8_dec rest"
  using assms by (auto simp: is_cont_def)

lemma utf8_dec_enc1:
  assumes "utf8_enc1 c = Some bs"
  shows "utf8_dec (bs @ rest) = c # utf8_dec rest"
proof -
  consider "c < 128" | "128 \<le> c" "c < 2048"
    | "2048 \<le> c" "c < 65536" "\<not> (55296 \<le> c \<and> c \<le> 57343)"
    | "65536 \<le> c" "c < 1114112"
    using assms by (auto simp: utf8_enc1_def split: if_splits)
  then show ?thesis
  proof cases
    case 1
    then show ?thesis
      using assms by (auto simp: utf8_enc1_def)
  next
    case 2
    then have bs: "bs = [0xC0 + c div 64, 0x80 + c mod 64]"
      using assms by (auto simp: utf8_enc1_def)
    from two_byte_parts [OF 2]
    have p: "2 \<le> c div 64" "c div 64 < 32" "c mod 64 < 64"
      and c: "c = (c div 64) * 64 + c mod 64"
      by blast+
    from utf8_dec_two [OF p, of rest] show ?thesis
      unfolding bs using c by simp
  next
    case 3
    then have bs: "bs = [0xE0 + c div 4096, 0x80 + (c div 64) mod 64, 0x80 + c mod 64]"
      using assms by (auto simp: utf8_enc1_def)
    from three_byte_parts [OF 3]
    have p: "c div 4096 < 16" "(c div 64) mod 64 < 64" "c mod 64 < 64"
        "c div 4096 = 0 \<longrightarrow> 32 \<le> (c div 64) mod 64"
        "c div 4096 = 13 \<longrightarrow> (c div 64) mod 64 < 32"
      and c: "c = (c div 4096) * 4096 + ((c div 64) mod 64) * 64 + c mod 64"
      by blast+
    from utf8_dec_three [OF p, of rest] show ?thesis
      unfolding bs using c by simp
  next
    case 4
    then have bs: "bs = [0xF0 + c div 262144, 0x80 + (c div 4096) mod 64,
        0x80 + (c div 64) mod 64, 0x80 + c mod 64]"
      using assms by (auto simp: utf8_enc1_def)
    from four_byte_parts [OF 4]
    have p: "c div 262144 < 5" "(c div 4096) mod 64 < 64" "(c div 64) mod 64 < 64"
        "c mod 64 < 64"
        "c div 262144 = 0 \<longrightarrow> 16 \<le> (c div 4096) mod 64"
        "c div 262144 = 4 \<longrightarrow> (c div 4096) mod 64 < 16"
      and c: "c = (c div 262144) * 262144 + ((c div 4096) mod 64) * 4096
                  + ((c div 64) mod 64) * 64 + c mod 64"
      by blast+
    from utf8_dec_four [OF p, of rest] show ?thesis
      unfolding bs using c by simp
  qed
qed

lemma mod_64_bound: "(x::nat) mod 64 < 128"
  using mod_less_divisor [of 64 x] by linarith

lemma utf8_enc1_bytes:
  assumes "utf8_enc1 c = Some bs"
  shows "\<forall>b \<in> set bs. b < 256"
proof -
  consider "c < 128" | "128 \<le> c" "c < 2048"
    | "2048 \<le> c" "c < 65536" "\<not> (55296 \<le> c \<and> c \<le> 57343)"
    | "65536 \<le> c" "c < 1114112"
    using assms by (auto simp: utf8_enc1_def split: if_splits)
  then show ?thesis
  proof cases
    case 1
    then show ?thesis
      using assms by (auto simp: utf8_enc1_def)
  next
    case 2
    then have bs: "bs = [0xC0 + c div 64, 0x80 + c mod 64]"
      using assms by (auto simp: utf8_enc1_def)
    from two_byte_parts [OF 2]
    have "c div 64 < 32" "c mod 64 < 64"
      by blast+
    then show ?thesis
      unfolding bs by (simp add: mod_64_bound)
  next
    case 3
    then have bs: "bs = [0xE0 + c div 4096, 0x80 + (c div 64) mod 64, 0x80 + c mod 64]"
      using assms by (auto simp: utf8_enc1_def)
    from three_byte_parts [OF 3]
    have "c div 4096 < 16" "(c div 64) mod 64 < 64" "c mod 64 < 64"
      by blast+
    then show ?thesis
      unfolding bs by (simp add: mod_64_bound)
  next
    case 4
    then have bs: "bs = [0xF0 + c div 262144, 0x80 + (c div 4096) mod 64,
        0x80 + (c div 64) mod 64, 0x80 + c mod 64]"
      using assms by (auto simp: utf8_enc1_def)
    from four_byte_parts [OF 4]
    have "c div 262144 < 5" "(c div 4096) mod 64 < 64" "(c div 64) mod 64 < 64"
      "c mod 64 < 64"
      by blast+
    then show ?thesis
      unfolding bs by (simp add: mod_64_bound)
  qed
qed

lemma unat_byte_of_nat: "\<forall>b \<in> set bs. b < 256 \<Longrightarrow> map unat (map word_of_nat bs :: byte list) = bs"
  by (induction bs) (simp_all add: unat_of_nat)

lemma utf8_decode_encode: "utf8_encode t = Inr bs \<Longrightarrow> utf8_decode_replace bs = t"
proof (induction t arbitrary: bs)
  case Nil
  then show ?case
    by (simp add: utf8_decode_replace_def)
next
  case (Cons c cs)
  from Cons.prems obtain b1 r where
    b1: "utf8_enc1 c = Some b1" and r: "utf8_encode cs = Inr r"
    and bs: "bs = map word_of_nat b1 @ r"
    by (auto split: option.splits sum.splits)
  have "map unat bs = b1 @ map unat r"
    using bs unat_byte_of_nat [OF utf8_enc1_bytes [OF b1]] by simp
  then have "utf8_decode_replace bs = c # utf8_dec (map unat r)"
    using utf8_dec_enc1 [OF b1] by (simp add: utf8_decode_replace_def)
  also have "utf8_dec (map unat r) = cs"
    using Cons.IH [OF r] by (simp add: utf8_decode_replace_def)
  finally show ?case .
qed

lemma utf8_enc1_scalar: "unicode_scalar c \<Longrightarrow> \<exists>bs. utf8_enc1 c = Some bs"
  by (auto simp: unicode_scalar_def utf8_enc1_def)

lemma utf8_encode_scalars: "list_all unicode_scalar t \<Longrightarrow> \<exists>bs. utf8_encode t = Inr bs"
proof (induction t)
  case Nil
  then show ?case by simp
next
  case (Cons c cs)
  then obtain b1 r where "utf8_enc1 c = Some b1" "utf8_encode cs = Inr r"
    using utf8_enc1_scalar by fastforce
  then show ?case by simp
qed

lemma decode_payload_b64encode:
  "decode_payload (b64encode bs) = Inr (utf8_decode_replace bs)"
  by (simp add: decode_payload_def b64decode_b64encode)

section \<open>The deadline wait\<close>

lemma wait_for_recv_Some:
  assumes "wait_for_recv t w = (Some m, w')"
  shows "\<exists>arrival rest. inbox w = (arrival, m) # rest \<and> arrival < now w + t \<and> 0 < t \<and>
           w' = w\<lparr>now := max (now w) arrival, inbox := rest\<rparr>"
  using assms by (auto simp: wait_for_recv_def split: if_splits list.splits)

lemma wait_for_recv_None:
  assumes "wait_for_recv t w = (None, w')"
  shows "(t \<le> 0 \<and> w' = w) \<or>
         (0 < t \<and> w' = w\<lparr>now := now w + t\<rparr> \<and>
            (case inbox w of [] \<Rightarrow> True | (arrival, m) # rest \<Rightarrow> \<not> arrival < now w + t))"
  using assms by (auto simp: wait_for_recv_def split: if_splits list.splits)

text \<open>What a finished wait has consumed.\<close>

lemma recv_loop_consumed:
  "recv_loop msg_type tid deadline st w = Inr (r, st', w') \<Longrightarrow>
   \<exists>n. n \<le> length (inbox w) \<and> inbox w' = drop n (inbox w) \<and>
       accumulate_all (map snd (take n (inbox w))) st = Inr st' \<and>
       (\<forall>m \<in> set (butlast (map snd (take n (inbox w)))). \<not> wanted msg_type tid m) \<and>
       (case r of
          None \<Rightarrow> \<forall>m \<in> set (map snd (take n (inbox w))). \<not> wanted msg_type tid m
        | Some m \<Rightarrow> 0 < n \<and> m = last (map snd (take n (inbox w))) \<and> wanted msg_type tid m) \<and>
       sent w' = sent w \<and> now w \<le> now w' \<and> now w' \<le> max (now w) deadline \<and>
       (n = 0 \<and> now w < deadline \<longrightarrow> now w' = deadline)"
proof (induction msg_type tid deadline st w arbitrary: r st' w' rule: recv_loop.induct)
  case (1 msg_type tid deadline st w)
  show ?case
  proof (cases "now w < deadline")
    case False
    with "1.prems" have "r = None" "st' = st" "w' = w"
      by (simp_all add: recv_loop.simps)
    then show ?thesis
      using False by (intro exI [of _ 0]) simp
  next
    case True
    obtain x w1 where x: "wait_for_recv (deadline - now w) w = (x, w1)"
      by (cases "wait_for_recv (deadline - now w) w")
    show ?thesis
    proof (cases x)
      case None
      with "1.prems" True x have res: "r = None" "st' = st" "w' = w1"
        by (simp_all add: recv_loop.simps)
      from wait_for_recv_None [OF x [unfolded None]] True
      have "w1 = w\<lparr>now := deadline\<rparr>"
        by auto
      then show ?thesis
        using res True by (intro exI [of _ 0]) simp
    next
      case (Some parsed)
      from wait_for_recv_Some [OF x [unfolded Some]] obtain arrival rest where
        ib: "inbox w = (arrival, parsed) # rest" and ar: "arrival < deadline"
        and w1: "w1 = w\<lparr>now := max (now w) arrival, inbox := rest\<rparr>"
        by auto
      from "1.prems" True x Some obtain st1 where
        acc: "accumulate parsed st = Inr st1"
        by (auto simp: recv_loop.simps split: sum.splits)
      show ?thesis
      proof (cases "wanted msg_type tid parsed")
        case wt: True
        with "1.prems" True x Some acc have res: "r = Some parsed" "st' = st1" "w' = w1"
          by (simp_all add: recv_loop.simps)
        show ?thesis
          using res ib w1 acc wt True ar by (intro exI [of _ 1]) (simp add: max_def)
      next
        case wf: False
        with "1.prems" True x Some acc have
          rec: "recv_loop msg_type tid deadline st1 w1 = Inr (r, st', w')"
          by (simp add: recv_loop.simps)
        from "1.IH" [OF True x [symmetric] Some acc wf rec]
        obtain n where n: "n \<le> length (inbox w1)" "inbox w' = drop n (inbox w1)"
          "accumulate_all (map snd (take n (inbox w1))) st1 = Inr st'"
          "\<forall>m \<in> set (butlast (map snd (take n (inbox w1)))). \<not> wanted msg_type tid m"
          "case r of
             None \<Rightarrow> \<forall>m \<in> set (map snd (take n (inbox w1))). \<not> wanted msg_type tid m
           | Some m \<Rightarrow> 0 < n \<and> m = last (map snd (take n (inbox w1))) \<and> wanted msg_type tid m"
          "sent w' = sent w1" "now w1 \<le> now w'" "now w' \<le> max (now w1) deadline"
          by blast
        have w1s: "now w1 = max (now w) arrival" "inbox w1 = rest" "sent w1 = sent w"
          using w1 by simp_all
        have before: "now w \<le> now w1" "now w1 < deadline"
          using w1s True ar by simp_all
        have time: "now w \<le> now w'" "now w' \<le> max (now w) deadline"
          using before n(7,8) by (simp_all add: max_def)
        have tk: "map snd (take (Suc n) (inbox w)) = parsed # map snd (take n rest)"
          using ib by simp
        have lists: "Suc n \<le> length (inbox w)" "inbox w' = drop (Suc n) (inbox w)"
          "accumulate_all (map snd (take (Suc n) (inbox w))) st = Inr st'"
          using n(1,2,3) ib w1s acc by simp_all
        have early: "\<forall>m \<in> set (butlast (map snd (take (Suc n) (inbox w)))).
            \<not> wanted msg_type tid m"
          unfolding tk using n(4) wf w1s(2) by auto
        have final: "case r of
             None \<Rightarrow> \<forall>m \<in> set (map snd (take (Suc n) (inbox w))). \<not> wanted msg_type tid m
           | Some m \<Rightarrow> 0 < Suc n \<and> m = last (map snd (take (Suc n) (inbox w)))
               \<and> wanted msg_type tid m"
          unfolding tk using n(1,5) wf w1s(2) by (auto split: option.splits)
        show ?thesis
          using lists early final time n(6) w1s(3)
          by (intro exI [of _ "Suc n"]) simp
      qed
    qed
  qed
qed


lemma recv_until_progress:
  assumes "recv_until msg_type tid timeout st w = Inr (r, st', w')" "0 < timeout"
  shows "length (inbox w') < length (inbox w) \<or>
         (length (inbox w') = length (inbox w) \<and> now w' = now w + timeout)"
proof -
  from recv_loop_consumed [OF assms(1) [unfolded recv_until_def]]
  obtain n where n: "n \<le> length (inbox w)" "inbox w' = drop n (inbox w)"
    "n = 0 \<and> now w < now w + timeout \<longrightarrow> now w' = now w + timeout"
    by blast
  show ?thesis
  proof (cases n)
    case 0
    then show ?thesis
      using n assms(2) by simp
  next
    case (Suc k)
    then have "length (inbox w') < length (inbox w)"
      using n(1,2) by simp
    then show ?thesis ..
  qed
qed

lemma half_second_slots:
  fixes remaining :: rat
  assumes "0 < remaining"
  shows "nat \<lceil>(remaining - 1 / 2) * 2\<rceil> < nat \<lceil>remaining * 2\<rceil>"
proof -
  have "(remaining - 1 / 2) * 2 = remaining * 2 - 1"
    by (simp add: algebra_simps)
  moreover have "0 < \<lceil>remaining * 2\<rceil>"
    using assms by simp
  ultimately show ?thesis
    by simp
qed

text \<open>
  \<^verbatim>\<open>wait_for_output\<close> ends: each round either reads a frame or uses up half a second of the
  time that is left.
\<close>

termination wait_loop
proof (relation "measures [\<lambda>(tid, expected, deadline, st, w). length (inbox w),
    \<lambda>(tid, expected, deadline, st, w). nat \<lceil>(deadline - now w) * 2\<rceil>]")
  show "wf (measures [\<lambda>(tid, expected, deadline, st, w). length (inbox w),
    \<lambda>(tid, expected, deadline, st, w). nat \<lceil>(deadline - now w) * 2\<rceil>])"
    by simp
next
  fix tid :: string and expected :: pystr and deadline :: rat and st st' :: tester
    and w w' :: world and x :: "message option \<times> tester \<times> world"
    and r :: "message option" and y :: "tester \<times> world"
  assume running: "now w < deadline"
    and "recv_until ''output'' (Some tid) (1 / 2) st w = Inr x"
    and "(r, y) = x" and "(st', w') = y"
  then have "recv_until ''output'' (Some tid) (1 / 2) st w = Inr (r, st', w')"
    by simp
  from recv_until_progress [OF this]
  have "length (inbox w') < length (inbox w) \<or>
      (length (inbox w') = length (inbox w) \<and> now w' = now w + 1 / 2)"
    by simp
  moreover have "nat \<lceil>(deadline - now w - 1 / 2) * 2\<rceil> < nat \<lceil>(deadline - now w) * 2\<rceil>"
    using half_second_slots [of "deadline - now w"] running by simp
  ultimately show "((tid, expected, deadline, st', w'), (tid, expected, deadline, st, w))
      \<in> measures [\<lambda>(tid, expected, deadline, st, w). length (inbox w),
          \<lambda>(tid, expected, deadline, st, w). nat \<lceil>(deadline - now w) * 2\<rceil>]"
    by (auto simp: algebra_simps)
qed


declare wait_loop.simps [simp del]

section \<open>Accumulation of output\<close>

lemma accumulate_other:
  "mtype m \<noteq> ''output'' \<Longrightarrow> accumulate m st = Inr st"
  by (simp add: accumulate_def)

lemma accumulate_output:
  assumes "mtype m = ''output''" "target_term m st = Inr tid"
  shows "accumulate m st =
     (case outputs st tid of
        None \<Rightarrow> Inr st
      | Some old \<Rightarrow>
          (case data_b64 m of
             None \<Rightarrow> Inl KeyError
           | Some p \<Rightarrow>
               (case decode_payload p of
                  Inl e \<Rightarrow> Inl e
                | Inr d \<Rightarrow> Inr (st\<lparr>outputs := (outputs st)(tid \<mapsto> old @ d)\<rparr>))))"
  using assms by (simp add: accumulate_def)

lemma accumulate_keeps:
  assumes "accumulate m st = Inr st'"
  shows "term_ids st' = term_ids st \<and> dom (outputs st') = dom (outputs st) \<and>
         tproject st' = tproject st \<and> tworkspace st' = tworkspace st"
  using assms
  by (auto simp: accumulate_def split: if_splits sum.splits option.splits)

lemma target_term_given:
  "term_id m = Some S \<Longrightarrow> S \<noteq> [] \<Longrightarrow> target_term m st = Inr S"
  by (cases S) (simp_all add: target_term_def)


section \<open>The round trip of a payload\<close>

text \<open>
  C1, as the code has it. The base64 layer reproduces every byte sequence exactly, but the
  bytes are then decoded as UTF-8 with replacement and accumulated as text. So what an
  output frame whose payload encodes the bytes \<open>b\<close> appends to the buffer of a registered
  terminal is the replacing decoding of \<open>b\<close>; and for every text that \<^verbatim>\<open>send_input\<close> can
  encode (code points that are Unicode scalar values, the empty text and text outside
  ASCII included) the payload that it sends decodes to exactly that text.
\<close>

theorem payload_round_trip:
  "b64decode (b64encode b) = Inr b \<and>
   decode_payload (b64encode b) = Inr (utf8_decode_replace b) \<and>
   (outputs st tid = Some old \<and> tid \<noteq> [] \<longrightarrow>
      accumulate (output_frame (Some tid) (b64encode b)) st =
        Inr (st\<lparr>outputs := (outputs st)(tid \<mapsto> old @ utf8_decode_replace b)\<rparr>)) \<and>
   (list_all unicode_scalar t \<longrightarrow>
      (\<exists>p. send_input tid t w =
             Inr (send ((msg_of_type ''input'')\<lparr>term_id := Some tid, data_b64 := Some p\<rparr>) w) \<and>
           decode_payload p = Inr t))"
proof (intro conjI impI)
  show "b64decode (b64encode b) = Inr b"
    by (rule b64decode_b64encode)
  show "decode_payload (b64encode b) = Inr (utf8_decode_replace b)"
    by (rule decode_payload_b64encode)
next
  assume a: "outputs st tid = Some old \<and> tid \<noteq> []"
  have m: "mtype (output_frame (Some tid) (b64encode b)) = ''output''"
    "data_b64 (output_frame (Some tid) (b64encode b)) = Some (b64encode b)"
    "term_id (output_frame (Some tid) (b64encode b)) = Some tid"
    by (simp_all add: output_frame_def msg_of_type_def)
  have "target_term (output_frame (Some tid) (b64encode b)) st = Inr tid"
    using a m(3) by (simp add: target_term_given)
  from accumulate_output [OF m(1) this]
  show "accumulate (output_frame (Some tid) (b64encode b)) st =
      Inr (st\<lparr>outputs := (outputs st)(tid \<mapsto> old @ utf8_decode_replace b)\<rparr>)"
    using a m(2) by (simp add: decode_payload_b64encode)
next
  assume "list_all unicode_scalar t"
  then obtain bs where bs: "utf8_encode t = Inr bs"
    using utf8_encode_scalars by blast
  then have "send_input tid t w =
      Inr (send ((msg_of_type ''input'')\<lparr>term_id := Some tid, data_b64 := Some (b64encode bs)\<rparr>) w)"
    by (simp add: send_input_def encode_payload_def)
  moreover have "decode_payload (b64encode bs) = Inr t"
    using utf8_decode_encode [OF bs] by (simp add: decode_payload_b64encode)
  ultimately show "\<exists>p. send_input tid t w =
      Inr (send ((msg_of_type ''input'')\<lparr>term_id := Some tid, data_b64 := Some p\<rparr>) w) \<and>
      decode_payload p = Inr t"
    by blast
qed

theorem payload_round_trip_witness:
  "b64decode (b64encode [0xFF, 0x00]) = Inr [0xFF, 0x00] \<and>
   outputs (tester_of [''t1'']) ''t1'' = Some [] \<and>
   accumulate (output_frame (Some ''t1'') (b64encode [0xFF, 0x00])) (tester_of [''t1'']) =
     Inr ((tester_of [''t1''])
            \<lparr>outputs := (outputs (tester_of [''t1'']))
                 (''t1'' \<mapsto> [] @ utf8_decode_replace [0xFF, 0x00])\<rparr>) \<and>
   list_all unicode_scalar [0x68, 0xE9, 0x20AC, 0x1F600] \<and>
   (\<exists>p. send_input ''t1'' [0x68, 0xE9, 0x20AC, 0x1F600] busy_world =
          Inr (send ((msg_of_type ''input'')\<lparr>term_id := Some ''t1'', data_b64 := Some p\<rparr>)
                 busy_world) \<and>
        decode_payload p = Inr [0x68, 0xE9, 0x20AC, 0x1F600])"
proof -
  have s: "outputs (tester_of [''t1'']) ''t1'' = Some []"
    by (simp add: tester_of_def)
  have u: "list_all unicode_scalar [0x68, 0xE9, 0x20AC, 0x1F600]"
    by (simp add: unicode_scalar_def)
  from payload_round_trip [of "[0xFF, 0x00]" "tester_of [''t1'']" "''t1''" "[]"
      "[0x68, 0xE9, 0x20AC, 0x1F600]" busy_world] s u
  show ?thesis
    by simp
qed

text \<open>
  C1 as stated fails: for the single byte 0xFF, which is not valid UTF-8, the text that is
  appended is U+FFFD. Encoded again it is three other bytes, and the byte 0xFE leads to the
  same text, so the original byte cannot be recovered from the accumulated output.
\<close>

theorem payload_round_trip_counterexample:
  "accumulate (output_frame (Some ''t1'') (b64encode [0xFF])) (tester_of [''t1'']) =
     Inr ((tester_of [''t1''])\<lparr>outputs := (outputs (tester_of [''t1'']))(''t1'' \<mapsto> [0xFFFD])\<rparr>) \<and>
   utf8_encode [0xFFFD] = Inr [0xEF, 0xBF, 0xBD] \<and>
   decode_payload (b64encode [0xFE]) = decode_payload (b64encode [0xFF])"
proof -
  have d: "decode_payload (b64encode [0xFF]) = Inr [0xFFFD]"
    "decode_payload (b64encode [0xFE]) = Inr [0xFFFD]"
    unfolding decode_payload_b64encode by (simp_all add: utf8_decode_replace_def)
  have m: "mtype (output_frame (Some ''t1'') (b64encode [0xFF])) = ''output''"
    "data_b64 (output_frame (Some ''t1'') (b64encode [0xFF])) = Some (b64encode [0xFF])"
    "target_term (output_frame (Some ''t1'') (b64encode [0xFF])) (tester_of [''t1'']) = Inr ''t1''"
    by (simp_all add: output_frame_def msg_of_type_def target_term_def)
  have "outputs (tester_of [''t1'']) ''t1'' = Some []"
    by (simp add: tester_of_def)
  then have "accumulate (output_frame (Some ''t1'') (b64encode [0xFF])) (tester_of [''t1'']) =
     Inr ((tester_of [''t1''])\<lparr>outputs := (outputs (tester_of [''t1'']))(''t1'' \<mapsto> [0xFFFD])\<rparr>)"
    using accumulate_output [OF m(1,3)] m(2) d(1) by simp
  moreover have "utf8_encode [0xFFFD] = Inr [0xEF, 0xBF, 0xBD]"
    by (simp add: utf8_enc1_def)
  ultimately show ?thesis
    using d by simp
qed

section \<open>Output for a terminal that is not registered\<close>

text \<open>
  C2, as the code has it. An output frame is appended to the buffer of its terminal only
  when that terminal is already a key of \<open>outputs\<close>; otherwise the state is left as it is:
  no buffer is created and the payload is not even read.
\<close>

theorem accumulate_registered_only:
  assumes "mtype m = ''output''" "target_term m st = Inr tid"
  shows "(outputs st tid = None \<longrightarrow> accumulate m st = Inr st) \<and>
         (\<forall>old p d. outputs st tid = Some old \<and> data_b64 m = Some p \<and>
              decode_payload p = Inr d \<longrightarrow>
            accumulate m st = Inr (st\<lparr>outputs := (outputs st)(tid \<mapsto> old @ d)\<rparr>))"
  using accumulate_output [OF assms] by auto

lemma decode_hi: "decode_payload ''aGk='' = Inr [104, 105]"
  by (simp add: decode_payload_def b64decode_def b64_val_def utf8_decode_replace_def emit_def)

theorem accumulate_registered_only_witness:
  "mtype (output_frame (Some ''t1'') ''aGk='') = ''output'' \<and>
   target_term (output_frame (Some ''t1'') ''aGk='') (tester_of [''t1'', ''t2'']) = Inr ''t1'' \<and>
   accumulate (output_frame (Some ''t1'') ''aGk='') (tester_of [''t1'', ''t2'']) =
     Inr ((tester_of [''t1'', ''t2''])
           \<lparr>outputs := (outputs (tester_of [''t1'', ''t2'']))(''t1'' \<mapsto> [104, 105])\<rparr>)"
  using accumulate_registered_only
    [of "output_frame (Some ''t1'') ''aGk=''" "tester_of [''t1'', ''t2'']" "''t1''"]
  by (simp add: output_frame_def msg_of_type_def tester_of_def target_term_def decode_hi)

text \<open>
  C2 as stated fails: an output frame for the terminal \<^verbatim>\<open>t9\<close>, which is not a key of
  \<open>outputs\<close>, is pulled and returned by the wait, but the state is unchanged. No buffer
  for \<^verbatim>\<open>t9\<close> exists afterwards and the payload is dropped.
\<close>

theorem unknown_terminal_counterexample:
  "recv_until ''output'' None 1 (tester_of [''t1''])
     \<lparr>now = 0, inbox = [(0, output_frame (Some ''t9'') ''aGk='')], sent = []\<rparr> =
     Inr (Some (output_frame (Some ''t9'') ''aGk=''), tester_of [''t1''],
          \<lparr>now = 0, inbox = [], sent = []\<rparr>) \<and>
   outputs (tester_of [''t1'']) ''t9'' = None"
  by (simp add: recv_until_def recv_loop.simps wait_for_recv_def accumulate_def
      target_term_def wanted_def output_frame_def msg_of_type_def tester_of_def)


section \<open>Attribution of output\<close>





section \<open>What a wait does to the buffers\<close>




lemma accumulate_all_keeps:
  "accumulate_all ms st = Inr st' \<Longrightarrow>
   term_ids st' = term_ids st \<and> dom (outputs st') = dom (outputs st) \<and>
   tproject st' = tproject st \<and> tworkspace st' = tworkspace st"
proof (induction ms arbitrary: st)
  case Nil
  then show ?case by simp
next
  case (Cons m ms)
  from Cons.prems obtain st1 where
    1: "accumulate m st = Inr st1" and 2: "accumulate_all ms st1 = Inr st'"
    by (auto split: sum.splits)
  from accumulate_keeps [OF 1] Cons.IH [OF 2] show ?case
    by simp
qed



lemma decode_ff: "decode_payload ''/w=='' = Inr [0xFFFD]"
  by (simp add: decode_payload_def b64decode_def b64_val_def utf8_decode_replace_def emit_def)

lemma busy_wait:
  "\<exists>st' w'. recv_until ''pong'' None 2 (tester_of [''t1'', ''t2'']) busy_world =
       Inr (Some (msg_of_type ''pong''), st', w') \<and>
     outputs st' ''t1'' = Some [0xFFFD] \<and> outputs st' ''t2'' = Some [104, 105] \<and>
     outputs st' ''t9'' = None \<and> inbox w' = [] \<and> now w' = 39 / 20"
  apply (simp add: recv_until_def busy_world_def)
  apply (subst recv_loop.simps)
  apply (simp add: wait_for_recv_def accumulate_def target_term_def wanted_def
      output_frame_def msg_of_type_def tester_of_def decode_hi decode_ff)
  apply (subst recv_loop.simps)
  apply (simp add: wait_for_recv_def accumulate_def target_term_def wanted_def
      output_frame_def msg_of_type_def tester_of_def decode_hi decode_ff)
  apply (subst recv_loop.simps)
  apply (simp add: wait_for_recv_def accumulate_def target_term_def wanted_def
      output_frame_def msg_of_type_def tester_of_def decode_hi decode_ff)
  apply (subst recv_loop.simps)
  apply (simp add: wait_for_recv_def accumulate_def target_term_def wanted_def
      output_frame_def msg_of_type_def tester_of_def decode_hi decode_ff)
  done




section \<open>Deadlines\<close>


lemma exact_time_sum:
  assumes "exact_time a" "exact_time b"
  shows "(a + b) * 2 ^ 20 \<in> \<int> \<and> \<bar>(a + b) * 2 ^ 20\<bar> \<le> 2 ^ 53"
    and "(a - b) * 2 ^ 20 \<in> \<int> \<and> \<bar>(a - b) * 2 ^ 20\<bar> \<le> 2 ^ 53"
proof -
  have i: "a * 2 ^ 20 \<in> \<int>" "b * 2 ^ 20 \<in> \<int>" and m: "\<bar>a\<bar> \<le> 2 ^ 32" "\<bar>b\<bar> \<le> 2 ^ 32"
    using assms by (simp_all add: exact_time_def)
  have "(a + b) * 2 ^ 20 = a * 2 ^ 20 + b * 2 ^ 20" "(a - b) * 2 ^ 20 = a * 2 ^ 20 - b * 2 ^ 20"
    by (simp_all add: algebra_simps)
  then have "(a + b) * 2 ^ 20 \<in> \<int>" "(a - b) * 2 ^ 20 \<in> \<int>"
    using i by simp_all
  moreover have "\<bar>a + b\<bar> \<le> 2 ^ 33" "\<bar>a - b\<bar> \<le> 2 ^ 33"
    using m by simp_all
  then have "\<bar>(a + b) * 2 ^ 20\<bar> \<le> 2 ^ 53" "\<bar>(a - b) * 2 ^ 20\<bar> \<le> 2 ^ 53"
    by (simp_all add: abs_mult)
  ultimately show "(a + b) * 2 ^ 20 \<in> \<int> \<and> \<bar>(a + b) * 2 ^ 20\<bar> \<le> 2 ^ 53"
    and "(a - b) * 2 ^ 20 \<in> \<int> \<and> \<bar>(a - b) * 2 ^ 20\<bar> \<le> 2 ^ 53"
    by simp_all
qed







text \<open>
  C8. A read with no time left returns at once and leaves the socket alone; the loop of
  the wait does not even start a read once the clock has reached the deadline, so a wait
  whose budget is zero or negative returns \<open>None\<close> with the state, the inbox and the clock as
  they were; and no wait ends later than its deadline.
\<close>

theorem no_read_without_budget:
  "(t \<le> 0 \<longrightarrow> wait_for_recv t w = (None, w)) \<and>
   (deadline \<le> now w \<longrightarrow> recv_loop msg_type tid deadline st w = Inr (None, st, w)) \<and>
   (timeout \<le> 0 \<longrightarrow> recv_until msg_type tid timeout st w = Inr (None, st, w)) \<and>
   (\<forall>r st' w'. recv_until msg_type tid timeout st w = Inr (r, st', w') \<longrightarrow>
      now w' \<le> max (now w) (now w + timeout))"
proof (intro conjI impI allI)
  assume "t \<le> 0"
  then show "wait_for_recv t w = (None, w)"
    by (simp add: wait_for_recv_def)
next
  assume "deadline \<le> now w"
  then show "recv_loop msg_type tid deadline st w = Inr (None, st, w)"
    by (subst recv_loop.simps) simp
next
  assume "timeout \<le> 0"
  then show "recv_until msg_type tid timeout st w = Inr (None, st, w)"
    unfolding recv_until_def by (subst recv_loop.simps) simp
next
  fix r st' w'
  assume "recv_until msg_type tid timeout st w = Inr (r, st', w')"
  from recv_loop_consumed [OF this [unfolded recv_until_def]]
  show "now w' \<le> max (now w) (now w + timeout)"
    by blast
qed

theorem no_read_without_budget_witness:
  "wait_for_recv 0 busy_world = (None, busy_world) \<and>
   recv_loop ''pong'' None 0 (tester_of [''t1'']) busy_world =
     Inr (None, tester_of [''t1''], busy_world) \<and>
   recv_until ''pong'' None (- 1) (tester_of [''t1'']) busy_world =
     Inr (None, tester_of [''t1''], busy_world) \<and>
   (\<exists>st' w'. recv_until ''pong'' None 2 (tester_of [''t1'', ''t2'']) busy_world =
       Inr (Some (msg_of_type ''pong''), st', w') \<and> now w' \<le> 2)"
proof -
  from busy_wait obtain st' w' where
    r: "recv_until ''pong'' None 2 (tester_of [''t1'', ''t2'']) busy_world =
       Inr (Some (msg_of_type ''pong''), st', w')"
    by blast
  have "now w' \<le> 2"
    using no_read_without_budget [of 0 busy_world 0 "''pong''" None
        "tester_of [''t1'', ''t2'']" 2] r
    by (simp add: busy_world_def)
  then have "\<exists>st' w'. recv_until ''pong'' None 2 (tester_of [''t1'', ''t2'']) busy_world =
       Inr (Some (msg_of_type ''pong''), st', w') \<and> now w' \<le> 2"
    using r by blast
  then show ?thesis
    using no_read_without_budget
      [of 0 busy_world 0 "''pong''" None "tester_of [''t1'']" "- 1"]
    by (simp add: busy_world_def)
qed

section \<open>Waiting for output that is already there\<close>

text \<open>
  C10. When the buffer of the terminal already contains the expected text and the timeout
  is positive, \<^verbatim>\<open>wait_for_output\<close> answers \<open>True\<close> in its first round, before any read: the
  state, the inbox and the clock are returned as they were.
\<close>

theorem wait_for_output_buffered:
  assumes "0 < timeout" "outputs st tid = Some buf" "sublist expected buf"
  shows "wait_for_output tid expected timeout st w = Inr (True, st, w)"
  unfolding wait_for_output_def using assms by (subst wait_loop.simps) simp

theorem wait_for_output_buffered_witness:
  "wait_for_output ''t1'' (pystr_of ''hi'') 5
     ((tester_of [''t1''])\<lparr>outputs := [''t1'' \<mapsto> pystr_of ''$ hi there'']\<rparr>) busy_world =
   Inr (True, (tester_of [''t1''])\<lparr>outputs := [''t1'' \<mapsto> pystr_of ''$ hi there'']\<rparr>, busy_world)"
proof -
  have "sublist (pystr_of ''hi'') (pystr_of ''$ hi there'')"
    by (simp add: pystr_of_def sublist_Cons_right)
  from wait_for_output_buffered [OF _ _ this, of 5 _ "''t1''"] show ?thesis
    by simp
qed

section \<open>Closing a terminal\<close>

lemma recv_until_keeps:
  assumes "recv_until msg_type tid timeout st w = Inr (r, st', w')"
  shows "term_ids st' = term_ids st \<and> dom (outputs st') = dom (outputs st)"
proof -
  from recv_loop_consumed [OF assms [unfolded recv_until_def]]
  obtain n where "accumulate_all (map snd (take n (inbox w))) st = Inr st'"
    by blast
  from accumulate_all_keeps [OF this] show ?thesis
    by simp
qed

text \<open>
  C7, as the code has it. Closing a terminal that is not open gives \<open>False\<close> and leaves the
  list of open terminals as it is whenever the wait ends without a \<^verbatim>\<open>term_closed\<close> frame
  that repeats the id: on a timeout, or on a \<^verbatim>\<open>term_closed\<close> frame for another id.
\<close>

theorem close_unknown_terminal:
  assumes "tid \<notin> set (term_ids st)"
    "recv_until ''term_closed'' None TIMEOUT st
       (send ((msg_of_type ''term_close'')\<lparr>term_id := Some tid\<rparr>) w) = Inr (r, st', w')"
    "\<forall>m. r = Some m \<longrightarrow> term_id m \<noteq> Some tid"
  shows "close_terminal tid st w = Inr (False, st', w') \<and> term_ids st' = term_ids st"
proof -
  have "close_terminal tid st w = Inr (False, st', w')"
    using assms(2,3) by (cases r) (simp_all add: close_terminal_def)
  then show ?thesis
    using recv_until_keeps [OF assms(2)] by simp
qed


lemma error_then_silence:
  "recv_until ''term_closed'' None TIMEOUT (tester_of [''t2''])
     (send ((msg_of_type ''term_close'')\<lparr>term_id := Some ''t1''\<rparr>)
        \<lparr>now = 0, inbox = [(1, msg_of_type ''error'')], sent = []\<rparr>) =
   Inr (None, tester_of [''t2''],
        \<lparr>now = 10, inbox = [], sent = [(msg_of_type ''term_close'')\<lparr>term_id := Some ''t1''\<rparr>]\<rparr>)"
  apply (simp add: recv_until_def send_def TIMEOUT_def)
  apply (subst recv_loop.simps)
  apply (simp add: wait_for_recv_def accumulate_def wanted_def msg_of_type_def)
  apply (subst recv_loop.simps)
  apply (simp add: wait_for_recv_def)
  done

theorem close_unknown_terminal_witness:
  "''t1'' \<notin> set (term_ids (tester_of [''t2''])) \<and>
   close_terminal ''t1'' (tester_of [''t2''])
     \<lparr>now = 0, inbox = [(1, msg_of_type ''error'')], sent = []\<rparr> =
   Inr (False, tester_of [''t2''],
        \<lparr>now = 10, inbox = [], sent = [(msg_of_type ''term_close'')\<lparr>term_id := Some ''t1''\<rparr>]\<rparr>)"
proof -
  have "''t1'' \<notin> set (term_ids (tester_of [''t2'']))"
    by (simp add: tester_of_def)
  from this close_unknown_terminal [OF this error_then_silence] show ?thesis
    by simp
qed

text \<open>
  C7 as stated fails: the terminal \<^verbatim>\<open>t1\<close> is not open, and the peer answers the request with
  a \<^verbatim>\<open>term_closed\<close> frame for \<^verbatim>\<open>t1\<close>. The removal from the list of open terminals then
  raises \<^verbatim>\<open>ValueError\<close>; no result is returned.
\<close>

theorem close_unknown_terminal_counterexample:
  "''t1'' \<notin> set (term_ids (tester_of [''t2''])) \<and>
   close_terminal ''t1'' (tester_of [''t2''])
     \<lparr>now = 0, inbox = [(1, (msg_of_type ''term_closed'')\<lparr>term_id := Some ''t1''\<rparr>)],
      sent = []\<rparr> = Inl ValueError"
  apply (simp add: close_terminal_def recv_until_def send_def TIMEOUT_def)
  apply (subst recv_loop.simps)
  apply (simp add: wait_for_recv_def accumulate_def wanted_def msg_of_type_def tester_of_def)
  done

section \<open>Selecting the workspace\<close>

text \<open>
  C5. When the acknowledgment of the selection arrives with the session id \<open>S1\<close>, the list
  of terminals and the dictionary of buffers are replaced: afterwards \<open>S1\<close> is the only
  terminal and the only key, with an empty buffer, and any other id \<open>S0\<close>, the former
  default among them, is gone.
\<close>

theorem select_workspace_replaces:
  assumes "recv_until ''selected_workspace'' None TIMEOUT st
       (send ((msg_of_type ''select_workspace'')
                \<lparr>project := tproject st, workspace := tworkspace st\<rparr>) w) = Inr (Some m, st1, w1)"
    "session_id m = Some S1" "S1 \<noteq> S0"
  shows "\<exists>st'. select_workspace st w = Inr (st', w1) \<and> term_ids st' = [S1] \<and>
           outputs st' S1 = Some [] \<and> outputs st' S0 = None \<and> S0 \<notin> set (term_ids st') \<and>
           dom (outputs st') = {S1}"
  using assms by (simp add: select_workspace_def)

lemma selection_acknowledged:
  "recv_until ''selected_workspace'' None TIMEOUT (tester_of [''s0''])
     (send ((msg_of_type ''select_workspace'')
              \<lparr>project := tproject (tester_of [''s0'']),
                workspace := tworkspace (tester_of [''s0''])\<rparr>)
        \<lparr>now = 0, inbox = [(1, (msg_of_type ''selected_workspace'')\<lparr>session_id := Some ''s1''\<rparr>)],
         sent = []\<rparr>) =
   Inr (Some ((msg_of_type ''selected_workspace'')\<lparr>session_id := Some ''s1''\<rparr>),
        tester_of [''s0''],
        \<lparr>now = 1, inbox = [], sent = [msg_of_type ''select_workspace'']\<rparr>)"
  apply (simp add: recv_until_def send_def TIMEOUT_def)
  apply (subst recv_loop.simps)
  apply (simp add: wait_for_recv_def accumulate_def wanted_def msg_of_type_def tester_of_def)
  done

theorem select_workspace_replaces_witness:
  "outputs (tester_of [''s0'']) ''s0'' = Some [] \<and>
   (\<exists>st'. select_workspace (tester_of [''s0''])
        \<lparr>now = 0, inbox = [(1, (msg_of_type ''selected_workspace'')\<lparr>session_id := Some ''s1''\<rparr>)],
         sent = []\<rparr> =
        Inr (st', \<lparr>now = 1, inbox = [], sent = [msg_of_type ''select_workspace'']\<rparr>) \<and>
      term_ids st' = [''s1''] \<and> outputs st' ''s1'' = Some [] \<and> outputs st' ''s0'' = None \<and>
      ''s0'' \<notin> set (term_ids st') \<and> dom (outputs st') = {''s1''})"
proof -
  have "session_id ((msg_of_type ''selected_workspace'')\<lparr>session_id := Some ''s1''\<rparr>) = Some ''s1''"
    "''s1'' \<noteq> ''s0''"
    by simp_all
  from select_workspace_replaces [OF selection_acknowledged this] show ?thesis
    by (simp add: tester_of_def)
qed

section \<open>The isolation check\<close>

text \<open>
  C9. On two registered terminals the check answers with the four containment facts and
  the verdict computed from the two buffers alone, and returns the state and the socket
  unchanged; so two states that agree on the two buffers get the same answer, and a second
  check on what the first returned answers the same again.
\<close>

theorem verify_isolation_pure:
  assumes "outputs st term1 = Some out1" "outputs st term2 = Some out2"
  shows "verify_isolation term1 term2 st w =
           Inr ((isolation_facts out1 out2, isolation_ok (isolation_facts out1 out2)), st, w) \<and>
         (\<forall>st2 w2. outputs st2 term1 = Some out1 \<and> outputs st2 term2 = Some out2 \<longrightarrow>
            map_sum id fst (verify_isolation term1 term2 st2 w2) =
            map_sum id fst (verify_isolation term1 term2 st w)) \<and>
         (\<forall>v st' w'. verify_isolation term1 term2 st w = Inr (v, st', w') \<longrightarrow>
            verify_isolation term1 term2 st' w' = Inr (v, st', w'))"
  using assms by (simp add: verify_isolation_def)

theorem verify_isolation_pure_witness:
  "verify_isolation ''t1'' ''t2''
     ((tester_of [''t1'', ''t2''])
        \<lparr>outputs := [''t1'' \<mapsto> pystr_of ''MARKER_A'', ''t2'' \<mapsto> pystr_of ''MARKER_B'']\<rparr>)
     busy_world =
   Inr (((True, False, False, True), True),
        (tester_of [''t1'', ''t2''])
          \<lparr>outputs := [''t1'' \<mapsto> pystr_of ''MARKER_A'', ''t2'' \<mapsto> pystr_of ''MARKER_B'']\<rparr>,
        busy_world)"
proof -
  have f: "isolation_facts (pystr_of ''MARKER_A'') (pystr_of ''MARKER_B'') =
      (True, False, False, True)"
    by (simp add: isolation_facts_def pystr_of_def sublist_Cons_right)
  have "outputs ((tester_of [''t1'', ''t2''])
        \<lparr>outputs := [''t1'' \<mapsto> pystr_of ''MARKER_A'', ''t2'' \<mapsto> pystr_of ''MARKER_B'']\<rparr>) ''t1''
      = Some (pystr_of ''MARKER_A'')"
    "outputs ((tester_of [''t1'', ''t2''])
        \<lparr>outputs := [''t1'' \<mapsto> pystr_of ''MARKER_A'', ''t2'' \<mapsto> pystr_of ''MARKER_B'']\<rparr>) ''t2''
      = Some (pystr_of ''MARKER_B'')"
    by simp_all
  from verify_isolation_pure [OF this, of busy_world] show ?thesis
    by (simp add: f isolation_ok_def)
qed

end
